theory Spec2Isabelle
  imports
    Complex_Main
    "HOL-Library.Word"
    "HOL-Library.AList"
    "HOL-Library.Char_ord"
    "HOL-Library.List_Lexorder"
begin

section \<open>The usage ledger of the sidebar (package sidebar of riturajFi/cagent)\<close>

text \<open>
  The repository holds the sidebar component in two revisions that matter here:
  \<^item> \<^verbatim>\<open>src/pkg/tui/components/sidebar/sidebar.go\<close>, which derives the root agent's
    exclusive usage by subtraction (\<^verbatim>\<open>computeRootExclusiveUsage\<close>, \<^verbatim>\<open>subtractUsage\<close>);
    its functions keep their names below;
  \<^item> \<^verbatim>\<open>src/unnamed/part_001\<close>, a later revision of the same file with the legacy
    fallback, the per-session \<^verbatim>\<open>inclusive\<close> map and \<^verbatim>\<open>aggregateSelfUsage\<close>; where a
    function of it differs from sidebar.go, its embedding carries the suffix \<open>_p1\<close>.

  \<^verbatim>\<open>src/unnamed/part_000\<close> is an earlier revision still: its \<^verbatim>\<open>computeTeamTotals\<close>,
  \<^verbatim>\<open>currentSessionUsage\<close>, \<^verbatim>\<open>mergeUsageTotals\<close> and \<^verbatim>\<open>cloneUsage\<close> are those of sidebar.go,
  and its \<^verbatim>\<open>SetTokenUsage\<close> is the one of sidebar.go without the step that records the
  agent name of a session.

  Only the usage state of the model is embedded: the other fields of \<^verbatim>\<open>model\<close> (size,
  spinner, todo component) are never read or written by the functions below.
\<close>

subsection \<open>Data model\<close>

text \<open>
  Modelled from the spec: the struct \<^verbatim>\<open>runtime.Usage\<close> is declared in package runtime,
  which is not part of the sources at hand. The sidebar reads and writes exactly the five
  fields below. The four counters are Go \<^verbatim>\<open>int\<close>s (they are added, compared with \<^verbatim>\<open>0\<close>
  and passed to \<^verbatim>\<open>formatTokenCount(count int)\<close>): a machine integer of 32 or 64 bits,
  hence a word of any length \<open>'w\<close>, read as two's complement by \<open>sint\<close> and compared by
  \<open><s\<close>. The cost is a \<^verbatim>\<open>float64\<close> (printed with \<^verbatim>\<open>%.2f\<close>); no law of real arithmetic is
  assumed for it: the type \<open>'c\<close> only has the operations the code uses, \<open>0\<close>, \<open>+\<close>,
  \<open>-\<close> and \<open><\<close>.
\<close>

record (overloaded) ('w, 'c) Usage =
  InputTokens :: "'w word"
  OutputTokens :: "'w word"
  ContextLength :: "'w word"
  ContextLimit :: "'w word"
  Cost :: 'c

text \<open>A pointer \<^verbatim>\<open>*runtime.Usage\<close> is an option: \<open>None\<close> is \<^verbatim>\<open>nil\<close>.\<close>

type_synonym ('w, 'c) UsagePtr = "('w, 'c) Usage option"

text \<open>The zero value of the struct (\<^verbatim>\<open>var total runtime.Usage\<close>, \<^verbatim>\<open>&runtime.Usage{}\<close>).\<close>

definition zeroUsage :: "('w::len, 'c::zero) Usage" where
  "zeroUsage = \<lparr>InputTokens = 0, OutputTokens = 0, ContextLength = 0, ContextLimit = 0, Cost = 0\<rparr>"

text \<open>
  Modelled from the spec: \<^verbatim>\<open>runtime.TokenUsageEvent\<close> is declared in package runtime as
  well. The fields the sidebar reads are the session ID, the agent name inside the agent
  context, the self and inclusive snapshots and the legacy \<^verbatim>\<open>Usage\<close> snapshot.
\<close>

record AgentContext =
  AgentName :: string

record (overloaded) ('w, 'c) TokenUsageEvent =
  SessionID :: string
  AgentContext :: AgentContext
  SelfUsage :: "('w, 'c) UsagePtr"
  InclusiveUsage :: "('w, 'c) UsagePtr"
  Usage :: "('w, 'c) UsagePtr"

text \<open>
  A Go map is an association list with distinct keys. Go leaves the order in which
  \<^verbatim>\<open>range\<close> visits a map unspecified; the order of the list stands for the order of one
  iteration, and what is proved for every list holds for every order. \<^verbatim>\<open>m[k] = v\<close> is
  \<open>AList.update k v\<close>, \<^verbatim>\<open>len(m) == 0\<close> is \<open>m = []\<close>, and reading a missing key gives the
  zero value of the value type: \<^verbatim>\<open>nil\<close> for a pointer, the empty string for a string.
\<close>

type_synonym 'v gomap = "(string \<times> 'v) list"

definition lookupPtr :: "'a option gomap \<Rightarrow> string \<Rightarrow> 'a option" where
  "lookupPtr m k = (case map_of m k of None \<Rightarrow> None | Some p \<Rightarrow> p)"

definition lookupStr :: "string gomap \<Rightarrow> string \<Rightarrow> string" where
  "lookupStr m k = (case map_of m k of None \<Rightarrow> [] | Some s \<Rightarrow> s)"

text \<open>The struct \<^verbatim>\<open>usageState\<close> of sidebar.go.\<close>

record (overloaded) ('w, 'c) usageState =
  sessions :: "('w, 'c) UsagePtr gomap"
  sessionAgents :: "string gomap"
  rootInclusive :: "('w, 'c) UsagePtr"
  rootSessionID :: string
  rootAgentName :: string
  activeSessionID :: string

text \<open>The struct \<^verbatim>\<open>usageState\<close> of part_001: the same fields and the map \<^verbatim>\<open>inclusive\<close>.\<close>

record (overloaded) ('w, 'c) usageState_p1 = "('w, 'c) usageState" +
  inclusive :: "('w, 'c) UsagePtr gomap"

text \<open>The usage state that \<^verbatim>\<open>New()\<close> builds: empty maps, nil snapshot, empty strings.\<close>

definition New :: "('w, 'c) usageState" where
  "New = \<lparr>sessions = [], sessionAgents = [], rootInclusive = None,
          rootSessionID = [], rootAgentName = [], activeSessionID = []\<rparr>"

definition New_p1 :: "('w, 'c) usageState_p1" where
  "New_p1 = \<lparr>sessions = [], sessionAgents = [], rootInclusive = None,
          rootSessionID = [], rootAgentName = [], activeSessionID = [], inclusive = []\<rparr>"

subsection \<open>Copying, merging and subtracting snapshots\<close>

text \<open>
  \<^verbatim>\<open>cloneUsage\<close> copies the struct behind a pointer into a new one. The embedding keeps
  snapshots by value, so the clone is the same value, owned by whoever holds it.
\<close>

definition cloneUsage :: "('w, 'c) UsagePtr \<Rightarrow> ('w, 'c) UsagePtr" where
  "cloneUsage u = (case u of None \<Rightarrow> None | Some c \<Rightarrow> Some c)"

text \<open>\<^verbatim>\<open>mergeUsageTotals\<close> (sidebar.go): the statements in the order of the source.\<close>

definition mergeUsageTotals ::
  "('w::len, 'c::plus) UsagePtr \<Rightarrow> ('w, 'c) UsagePtr \<Rightarrow> ('w, 'c) UsagePtr" where
  "mergeUsageTotals base delta =
     (case base of
        None \<Rightarrow> cloneUsage delta
      | Some b \<Rightarrow>
          (case delta of
             None \<Rightarrow> base
           | Some d \<Rightarrow>
               let b1 = b\<lparr>InputTokens := InputTokens b + InputTokens d\<rparr>;
                   b2 = b1\<lparr>OutputTokens := OutputTokens b1 + OutputTokens d\<rparr>;
                   b3 = b2\<lparr>ContextLength := ContextLength b2 + ContextLength d\<rparr>;
                   b4 = (if ContextLimit b3 <s ContextLimit d
                         then b3\<lparr>ContextLimit := ContextLimit d\<rparr> else b3);
                   b5 = b4\<lparr>Cost := Cost b4 + Cost d\<rparr>
               in Some b5))"

text \<open>\<^verbatim>\<open>subtractUsage\<close> (sidebar.go): the base is updated field by field, in place.\<close>

definition subtractUsage ::
  "('w::len, 'c::{zero,minus,ord}) UsagePtr \<Rightarrow> ('w, 'c) UsagePtr \<Rightarrow> ('w, 'c) UsagePtr" where
  "subtractUsage base delta =
     (case base of
        None \<Rightarrow> base
      | Some b \<Rightarrow>
          (case delta of
             None \<Rightarrow> base
           | Some d \<Rightarrow>
               let b1 = b\<lparr>InputTokens := InputTokens b - InputTokens d\<rparr>;
                   b2 = (if InputTokens b1 <s 0 then b1\<lparr>InputTokens := 0\<rparr> else b1);
                   b3 = b2\<lparr>OutputTokens := OutputTokens b2 - OutputTokens d\<rparr>;
                   b4 = (if OutputTokens b3 <s 0 then b3\<lparr>OutputTokens := 0\<rparr> else b3);
                   b5 = b4\<lparr>ContextLength := InputTokens b4 + OutputTokens b4\<rparr>;
                   b6 = b5\<lparr>Cost := Cost b5 - Cost d\<rparr>;
                   b7 = (if Cost b6 < 0 then b6\<lparr>Cost := 0\<rparr> else b6)
               in Some b7))"

subsection \<open>Ingestion: \<^verbatim>\<open>SetTokenUsage\<close>\<close>

text \<open>
  \<^verbatim>\<open>SetTokenUsage\<close> of sidebar.go. The event is a pointer, \<open>None\<close> is the nil event. Each
  \<^verbatim>\<open>if\<close> of the source is one step on the state, in the order of the source, so the last
  test reads the root agent name that the first step may just have set.
\<close>

definition SetTokenUsage ::
  "('w, 'c) TokenUsageEvent option \<Rightarrow> ('w, 'c) usageState \<Rightarrow> ('w, 'c) usageState" where
  "SetTokenUsage ev m =
     (case ev of
        None \<Rightarrow> m
      | Some event \<Rightarrow>
          let m1 = (if AgentName (AgentContext event) \<noteq> [] \<and> rootAgentName m = []
                    then m\<lparr>rootAgentName := AgentName (AgentContext event)\<rparr> else m);
              m2 = (if SessionID event \<noteq> []
                    then m1\<lparr>activeSessionID := SessionID event\<rparr> else m1);
              m3 = (if SelfUsage event \<noteq> None \<and> SessionID event \<noteq> []
                    then m2\<lparr>sessions :=
                           AList.update (SessionID event) (cloneUsage (SelfUsage event)) (sessions m2)\<rparr>
                    else m2);
              m4 = (if AgentName (AgentContext event) \<noteq> [] \<and> SessionID event \<noteq> []
                    then m3\<lparr>sessionAgents :=
                           AList.update (SessionID event) (AgentName (AgentContext event))
                             (sessionAgents m3)\<rparr>
                    else m3)
          in if AgentName (AgentContext event) = rootAgentName m4 \<and> InclusiveUsage event \<noteq> None
             then let m5 = m4\<lparr>rootInclusive := cloneUsage (InclusiveUsage event)\<rparr>
                  in if SessionID event \<noteq> [] then m5\<lparr>rootSessionID := SessionID event\<rparr> else m5
             else m4)"

text \<open>
  The legacy fallback at the head of \<^verbatim>\<open>SetTokenUsage\<close> in part_001: the local variables
  \<^verbatim>\<open>selfUsage\<close> and \<^verbatim>\<open>inclusiveUsage\<close> after lines 88 to 97.
\<close>

definition legacyFallback ::
  "('w, 'c) TokenUsageEvent \<Rightarrow> ('w, 'c) UsagePtr \<times> ('w, 'c) UsagePtr" where
  "legacyFallback event =
     (let selfUsage = SelfUsage event;
          inclusiveUsage = InclusiveUsage event
      in if (selfUsage = None \<or> inclusiveUsage = None) \<and> Usage event \<noteq> None
         then (if selfUsage = None then Usage event else selfUsage,
               if inclusiveUsage = None then Usage event else inclusiveUsage)
         else (selfUsage, inclusiveUsage))"

text \<open>The block \<^verbatim>\<open>if event.SessionID != ""\<close> of part_001 (lines 107 to 119).\<close>

definition storeSnapshots ::
  "string \<Rightarrow> ('w, 'c) UsagePtr \<Rightarrow> ('w, 'c) UsagePtr \<Rightarrow> ('w, 'c) usageState_p1
     \<Rightarrow> ('w, 'c) usageState_p1" where
  "storeSnapshots sid selfUsage inclusiveUsage m =
     (let snapshot = cloneUsage selfUsage;
          snapshot = (if snapshot = None then cloneUsage inclusiveUsage else snapshot);
          m1 = (if snapshot \<noteq> None
                then m\<lparr>sessions := AList.update sid snapshot (sessions m)\<rparr> else m)
      in if inclusiveUsage \<noteq> None
         then m1\<lparr>inclusive := AList.update sid (cloneUsage inclusiveUsage) (inclusive m1)\<rparr>
         else m1)"

text \<open>\<^verbatim>\<open>SetTokenUsage\<close> of part_001.\<close>

definition SetTokenUsage_p1 ::
  "('w, 'c) TokenUsageEvent option \<Rightarrow> ('w, 'c) usageState_p1 \<Rightarrow> ('w, 'c) usageState_p1" where
  "SetTokenUsage_p1 ev m =
     (case ev of
        None \<Rightarrow> m
      | Some event \<Rightarrow>
          let (selfUsage, inclusiveUsage) = legacyFallback event;
              m1 = (if AgentName (AgentContext event) \<noteq> [] \<and> rootAgentName m = []
                    then m\<lparr>rootAgentName := AgentName (AgentContext event)\<rparr> else m);
              m2 = (if SessionID event \<noteq> []
                    then m1\<lparr>activeSessionID := SessionID event\<rparr> else m1);
              m3 = (if SessionID event \<noteq> []
                    then storeSnapshots (SessionID event) selfUsage inclusiveUsage m2 else m2);
              m4 = (if AgentName (AgentContext event) \<noteq> [] \<and> SessionID event \<noteq> []
                    then m3\<lparr>sessionAgents :=
                           AList.update (SessionID event) (AgentName (AgentContext event))
                             (sessionAgents m3)\<rparr>
                    else m3)
          in if AgentName (AgentContext event) = rootAgentName m4 \<and> inclusiveUsage \<noteq> None
             then let m5 = m4\<lparr>rootInclusive := cloneUsage inclusiveUsage\<rparr>
                  in if SessionID event \<noteq> [] then m5\<lparr>rootSessionID := SessionID event\<rparr> else m5
             else m4)"

text \<open>A sequence of events, recorded one after the other, first event first.\<close>

definition recordAll ::
  "('w, 'c) TokenUsageEvent option list \<Rightarrow> ('w, 'c) usageState \<Rightarrow> ('w, 'c) usageState" where
  "recordAll evs m = foldl (\<lambda>s ev. SetTokenUsage ev s) m evs"

definition recordAll_p1 ::
  "('w, 'c) TokenUsageEvent option list \<Rightarrow> ('w, 'c) usageState_p1 \<Rightarrow> ('w, 'c) usageState_p1" where
  "recordAll_p1 evs m = foldl (\<lambda>s ev. SetTokenUsage_p1 ev s) m evs"

subsection \<open>Snapshots behind pointers\<close>

text \<open>
  The functions above keep snapshots by value. To say that a stored snapshot is a copy of
  its own, \<^verbatim>\<open>cloneUsage\<close> and the block of part_001 that stores the snapshots of a session
  (lines 107 to 119) are embedded a second time with pointers: the heap is the list of the
  \<^verbatim>\<open>runtime.Usage\<close> cells allocated so far, an address is an index into it, a pointer is
  an address or nil, and the maps hold pointers. \<^verbatim>\<open>clone := *u; return &clone\<close> allocates
  a new cell with the contents of the old one. A Go pointer that is not nil always points
  at an allocated cell; the properties below are stated for such pointers (\<open>validPtr\<close>).
\<close>

type_synonym addr = nat

type_synonym ('w, 'c) heap = "('w, 'c) Usage list"

definition cloneUsage_ptr :: "('w, 'c) heap \<Rightarrow> addr option \<Rightarrow> ('w, 'c) heap \<times> addr option" where
  "cloneUsage_ptr h u =
     (case u of None \<Rightarrow> (h, None) | Some a \<Rightarrow> (h @ [h ! a], Some (length h)))"

definition storeSnapshots_ptr ::
  "string \<Rightarrow> addr option \<Rightarrow> addr option
     \<Rightarrow> ('w, 'c) heap \<times> addr option gomap \<times> addr option gomap
     \<Rightarrow> ('w, 'c) heap \<times> addr option gomap \<times> addr option gomap" where
  "storeSnapshots_ptr sid selfUsage inclusiveUsage st =
     (case st of (h, sess, incl) \<Rightarrow>
        let (h1, snapshot) = cloneUsage_ptr h selfUsage;
            (h2, snapshot) = (if snapshot = None then cloneUsage_ptr h1 inclusiveUsage
                              else (h1, snapshot));
            sess1 = (if snapshot \<noteq> None then AList.update sid snapshot sess else sess)
        in if inclusiveUsage \<noteq> None
           then let (h3, c) = cloneUsage_ptr h2 inclusiveUsage
                in (h3, sess1, AList.update sid c incl)
           else (h2, sess1, incl))"

subsection \<open>Team totals\<close>

text \<open>\<^verbatim>\<open>currentSessionUsage\<close> and \<^verbatim>\<open>computeTeamTotals\<close> of sidebar.go.\<close>

definition currentSessionUsage :: "('w, 'c) usageState \<Rightarrow> ('w, 'c) UsagePtr" where
  "currentSessionUsage m =
     (if activeSessionID m = [] then None else lookupPtr (sessions m) (activeSessionID m))"

definition computeTeamTotals :: "('w::len, 'c::plus) usageState \<Rightarrow> ('w, 'c) UsagePtr" where
  "computeTeamTotals m =
     (let base = cloneUsage (rootInclusive m);
          active = currentSessionUsage m
      in if base = None then cloneUsage active
         else if active \<noteq> None \<and> activeSessionID m \<noteq> [] \<and> activeSessionID m \<noteq> rootSessionID m
              then mergeUsageTotals base active
              else base)"

text \<open>
  \<^verbatim>\<open>aggregateSelfUsage\<close> of part_001: the loop over the map, with the running total as
  its state (\<open>tot\<close> is the variable \<^verbatim>\<open>total\<close>), then the function itself.
\<close>

fun aggregateLoop ::
  "('w::len, 'c::plus) UsagePtr gomap \<Rightarrow> ('w, 'c) Usage \<Rightarrow> ('w, 'c) Usage" where
  "aggregateLoop [] tot = tot"
| "aggregateLoop ((k, usage) # rest) tot =
     (case usage of
        None \<Rightarrow> aggregateLoop rest tot
      | Some u \<Rightarrow>
          let t1 = tot\<lparr>InputTokens := InputTokens tot + InputTokens u\<rparr>;
              t2 = t1\<lparr>OutputTokens := OutputTokens t1 + OutputTokens u\<rparr>;
              t3 = t2\<lparr>ContextLength := ContextLength t2 + ContextLength u\<rparr>;
              t4 = (if ContextLimit t3 <s ContextLimit u
                    then t3\<lparr>ContextLimit := ContextLimit u\<rparr> else t3);
              t5 = t4\<lparr>Cost := Cost t4 + Cost u\<rparr>
          in aggregateLoop rest t5)"

definition aggregateSelfUsage ::
  "('w::len, 'c::{zero,plus}) UsagePtr gomap \<Rightarrow> ('w, 'c) UsagePtr" where
  "aggregateSelfUsage usages =
     (if usages = [] then None else Some (aggregateLoop usages zeroUsage))"


text \<open>\<^verbatim>\<open>renderTotals\<close>: the label and the totals, which are never nil.\<close>

definition renderTotals ::
  "('w::len, 'c::{zero,plus}) usageState \<Rightarrow> string \<times> ('w, 'c) UsagePtr" where
  "renderTotals m =
     (let totals = computeTeamTotals m;
          totals = (if totals = None then Some zeroUsage else totals);
          label = ''Session Total'';
          label = (if rootInclusive m \<noteq> None
                   then (if activeSessionID m \<noteq> [] \<and> activeSessionID m \<noteq> rootSessionID m
                         then ''Team Total (incl. active child)'' else ''Team Total'')
                   else label)
      in (label, totals))"


subsection \<open>Root exclusive usage (sidebar.go)\<close>

text \<open>
  The loop of \<^verbatim>\<open>computeRootExclusiveUsage\<close> over the sessions map, with the running copy
  \<^verbatim>\<open>exclusive\<close> as its state, then the function.
\<close>

fun exclusiveLoop ::
  "string \<Rightarrow> ('w::len, 'c::{zero,minus,ord}) UsagePtr gomap \<Rightarrow> ('w, 'c) UsagePtr
     \<Rightarrow> ('w, 'c) UsagePtr" where
  "exclusiveLoop rootID [] exclusive = exclusive"
| "exclusiveLoop rootID ((sid, usage) # rest) exclusive =
     (if sid = rootID \<or> usage = None then exclusiveLoop rootID rest exclusive
      else exclusiveLoop rootID rest (subtractUsage exclusive usage))"

definition computeRootExclusiveUsage ::
  "('w::len, 'c::{zero,minus,ord}) usageState \<Rightarrow> ('w, 'c) UsagePtr" where
  "computeRootExclusiveUsage m =
     (if rootInclusive m = None then None
      else exclusiveLoop (rootSessionID m) (sessions m) (cloneUsage (rootInclusive m)))"

subsection \<open>Session breakdown\<close>

text \<open>
  \<^verbatim>\<open>formatSessionBlock\<close> returns the empty string for a nil snapshot and otherwise a string
  made by \<^verbatim>\<open>fmt.Sprintf\<close>, \<^verbatim>\<open>humanize.Comma\<close> and, for the active session, the active style:
  all three live outside the repository. The embedding keeps what the string is rendered
  from: the name, the token count \<^verbatim>\<open>InputTokens + OutputTokens\<close>, the cost and whether the
  active style is applied. \<open>None\<close> stands for the empty string; the format has literal
  text, so a rendered block is never empty.
\<close>

record (overloaded) ('w, 'c) block =
  blockName :: string
  blockTokens :: "'w word"
  blockCost :: 'c
  blockActive :: bool

definition formatSessionBlock ::
  "string \<Rightarrow> ('w::len, 'c) UsagePtr \<Rightarrow> bool \<Rightarrow> ('w, 'c) block option" where
  "formatSessionBlock agentName usage isActive =
     (case usage of
        None \<Rightarrow> None
      | Some u \<Rightarrow>
          Some \<lparr>blockName = agentName, blockTokens = InputTokens u + OutputTokens u,
                blockCost = Cost u, blockActive = isActive\<rparr>)"

text \<open>\<^verbatim>\<open>rootSessionBlock\<close> of sidebar.go and of part_001.\<close>

definition rootSessionBlock ::
  "('w::len, 'c::{zero,minus,ord}) usageState \<Rightarrow> ('w, 'c) block option" where
  "rootSessionBlock m =
     (let exclusive = computeRootExclusiveUsage m
      in if exclusive = None then None
         else let name = rootAgentName m;
                  name = (if name = [] then ''Root'' else name)
              in formatSessionBlock name exclusive (activeSessionID m = rootSessionID m))"

definition rootSessionBlock_p1 :: "('w::len, 'c) usageState_p1 \<Rightarrow> ('w, 'c) block option" where
  "rootSessionBlock_p1 m =
     (let rootUsage = lookupPtr (sessions m) (rootSessionID m);
          rootUsage = (if rootUsage = None then rootInclusive m else rootUsage)
      in if rootUsage = None then None
         else let name = rootAgentName m;
                  name = (if name = [] then ''Root'' else name)
              in formatSessionBlock name (cloneUsage rootUsage)
                   (activeSessionID m = rootSessionID m))"



text \<open>
  \<^verbatim>\<open>sessionBreakdownLines\<close> of part_001. The second loop adds the keys of \<^verbatim>\<open>inclusive\<close>
  that \<^verbatim>\<open>idSet\<close> has not seen; the first one puts every key of \<^verbatim>\<open>sessions\<close> into \<^verbatim>\<open>idSet\<close>
  and \<^verbatim>\<open>ids\<close>.
\<close>

fun unionLoop :: "string list \<Rightarrow> string set \<times> string list \<Rightarrow> string set \<times> string list" where
  "unionLoop [] (idSet, ids) = (idSet, ids)"
| "unionLoop (sid # rest) (idSet, ids) =
     (if sid \<in> idSet then unionLoop rest (idSet, ids)
      else unionLoop rest (insert sid idSet, ids @ [sid]))"

definition collectIDs :: "('w, 'c) usageState_p1 \<Rightarrow> string list" where
  "collectIDs m =
     (let ids = map fst (sessions m);
          idSet = set ids
      in snd (unionLoop (map fst (inclusive m)) (idSet, ids)))"



subsection \<open>Notions used to state the properties\<close>

text \<open>Clamping a counter at zero, as the \<^verbatim>\<open>if x < 0 { x = 0 }\<close> of the source does.\<close>

definition clampZero :: "'w::len word \<Rightarrow> 'w word" where
  "clampZero x = (if x <s 0 then 0 else x)"

text \<open>
  The steps of \<^verbatim>\<open>SetTokenUsage\<close>, one per \<^verbatim>\<open>if\<close> of the source, as functions of their own
  (the first, second and fourth are the same in both revisions, the last one takes what
  each revision tests): \<open>SetTokenUsage_Some\<close> and \<open>SetTokenUsage_p1_Some\<close> below show that
  the embedded functions are their composition.
\<close>

definition captureRootIdentity ::
  "('w, 'c) TokenUsageEvent \<Rightarrow> ('w, 'c, 'z) usageState_scheme \<Rightarrow> ('w, 'c, 'z) usageState_scheme" where
  "captureRootIdentity event m =
     (if AgentName (AgentContext event) \<noteq> [] \<and> rootAgentName m = []
      then m\<lparr>rootAgentName := AgentName (AgentContext event)\<rparr> else m)"

definition trackActiveSession ::
  "('w, 'c) TokenUsageEvent \<Rightarrow> ('w, 'c, 'z) usageState_scheme \<Rightarrow> ('w, 'c, 'z) usageState_scheme" where
  "trackActiveSession event m =
     (if SessionID event \<noteq> [] then m\<lparr>activeSessionID := SessionID event\<rparr> else m)"

definition storeSelfUsage ::
  "('w, 'c) TokenUsageEvent \<Rightarrow> ('w, 'c) usageState \<Rightarrow> ('w, 'c) usageState" where
  "storeSelfUsage event m =
     (if SelfUsage event \<noteq> None \<and> SessionID event \<noteq> []
      then m\<lparr>sessions :=
             AList.update (SessionID event) (cloneUsage (SelfUsage event)) (sessions m)\<rparr>
      else m)"

definition mapSessionName ::
  "('w, 'c) TokenUsageEvent \<Rightarrow> ('w, 'c, 'z) usageState_scheme \<Rightarrow> ('w, 'c, 'z) usageState_scheme" where
  "mapSessionName event m =
     (if AgentName (AgentContext event) \<noteq> [] \<and> SessionID event \<noteq> []
      then m\<lparr>sessionAgents :=
             AList.update (SessionID event) (AgentName (AgentContext event)) (sessionAgents m)\<rparr>
      else m)"

definition updateRootInclusive ::
  "string \<Rightarrow> string \<Rightarrow> ('w, 'c) UsagePtr \<Rightarrow> ('w, 'c, 'z) usageState_scheme
     \<Rightarrow> ('w, 'c, 'z) usageState_scheme" where
  "updateRootInclusive agent sid inclusiveUsage m =
     (if agent = rootAgentName m \<and> inclusiveUsage \<noteq> None
      then let m5 = m\<lparr>rootInclusive := cloneUsage inclusiveUsage\<rparr>
           in if sid \<noteq> [] then m5\<lparr>rootSessionID := sid\<rparr> else m5
      else m)"

definition storeSession_p1 ::
  "('w, 'c) TokenUsageEvent \<Rightarrow> ('w, 'c) usageState_p1 \<Rightarrow> ('w, 'c) usageState_p1" where
  "storeSession_p1 event m =
     (if SessionID event \<noteq> []
      then storeSnapshots (SessionID event) (fst (legacyFallback event))
             (snd (legacyFallback event)) m
      else m)"

text \<open>
  The snapshots stored in a map, in the order of one iteration: the entries whose pointer is
  not nil.
\<close>

fun storedSnapshots :: "('w, 'c) UsagePtr gomap \<Rightarrow> ('w, 'c) Usage list" where
  "storedSnapshots [] = []"
| "storedSnapshots ((k, None) # rest) = storedSnapshots rest"
| "storedSnapshots ((k, Some u) # rest) = u # storedSnapshots rest"


text \<open>
  The self-usage snapshots of the stored sessions other than the root session: what
  \<^verbatim>\<open>computeRootExclusiveUsage\<close> subtracts.
\<close>

definition childSnapshots :: "('w, 'c) usageState \<Rightarrow> ('w, 'c) Usage list" where
  "childSnapshots m = storedSnapshots (filter (\<lambda>(sid, usage). sid \<noteq> rootSessionID m) (sessions m))"



text \<open>
  The session IDs that get a row of their own, in the order of the rows: the sorted keys
  without the root session and without the sessions that have no snapshot.
\<close>

definition rowIDs :: "('w::len, 'c) usageState \<Rightarrow> string list" where
  "rowIDs m =
     filter (\<lambda>sid. sid \<noteq> rootSessionID m \<and> lookupPtr (sessions m) sid \<noteq> None)
       (sort (map fst (sessions m)))"

definition rowIDs_p1 :: "('w::len, 'c) usageState_p1 \<Rightarrow> string list" where
  "rowIDs_p1 m =
     filter (\<lambda>sid. sid \<noteq> rootSessionID m
               \<and> (lookupPtr (sessions m) sid \<noteq> None \<or> lookupPtr (inclusive m) sid \<noteq> None))
       (sort (collectIDs m))"



text \<open>
  Two association lists are the same Go map when they hold the same entries under distinct
  keys: they differ at most in the order in which an iteration visits them. Two ledgers
  are the same when their maps are and their other fields are equal.
\<close>

definition sameMap :: "'v gomap \<Rightarrow> 'v gomap \<Rightarrow> bool" where
  "sameMap xs ys \<longleftrightarrow> distinct (map fst xs) \<and> distinct (map fst ys) \<and> set xs = set ys"



text \<open>
  Reading a pointer in a heap, a map of pointers read in a heap, and a pointer that is nil
  or the address of an allocated cell.
\<close>

definition deref :: "('w, 'c) heap \<Rightarrow> addr option \<Rightarrow> ('w, 'c) UsagePtr" where
  "deref h p = (case p of None \<Rightarrow> None | Some a \<Rightarrow> Some (h ! a))"

definition derefMap :: "('w, 'c) heap \<Rightarrow> addr option gomap \<Rightarrow> ('w, 'c) UsagePtr gomap" where
  "derefMap h m = map (\<lambda>(k, p). (k, deref h p)) m"

definition validPtr :: "('w, 'c) heap \<Rightarrow> addr option \<Rightarrow> bool" where
  "validPtr h p \<longleftrightarrow> (case p of None \<Rightarrow> True | Some a \<Rightarrow> a < length h)"


text \<open>
  What every ledger that ingestion produces satisfies: the keys of a map are distinct and
  not empty, no stored pointer is nil, and the root session is only known once an inclusive
  snapshot of the root is.
\<close>

definition wellFormedMap :: "'a option gomap \<Rightarrow> bool" where
  "wellFormedMap m \<longleftrightarrow> distinct (map fst m) \<and> (\<forall>(k, v)\<in>set m. k \<noteq> [] \<and> v \<noteq> None)"

definition wellFormed :: "('w, 'c, 'z) usageState_scheme \<Rightarrow> bool" where
  "wellFormed m \<longleftrightarrow>
     wellFormedMap (sessions m) \<and> distinct (map fst (sessionAgents m))
     \<and> (rootInclusive m = None \<longrightarrow> rootSessionID m = [])"

definition wellFormed_p1 :: "('w, 'c) usageState_p1 \<Rightarrow> bool" where
  "wellFormed_p1 m \<longleftrightarrow> wellFormed m \<and> wellFormedMap (inclusive m)"

text \<open>
  Events and snapshots for the examples: the root agent reporting an inclusive snapshot, a
  worker reporting its own usage, an event without an agent name, an event of the legacy
  shape and a session that never names its agent. Counters are 64 bits wide there, the
  cost is a real number.
\<close>

definition exRootUsage :: "(64, real) Usage" where
  "exRootUsage = \<lparr>InputTokens = 1000, OutputTokens = 500, ContextLength = 1500,
                   ContextLimit = 8192, Cost = 1\<rparr>"

definition exChildUsage :: "(64, real) Usage" where
  "exChildUsage = \<lparr>InputTokens = 200, OutputTokens = 100, ContextLength = 300,
                    ContextLimit = 4096, Cost = 1 / 5\<rparr>"

definition exLegacyUsage :: "(64, real) Usage" where
  "exLegacyUsage = \<lparr>InputTokens = 10, OutputTokens = 5, ContextLength = 15,
                     ContextLimit = 0, Cost = 1 / 20\<rparr>"

definition exRootEvent :: "(64, real) TokenUsageEvent" where
  "exRootEvent = \<lparr>SessionID = ''root'', AgentContext = \<lparr>AgentName = ''root''\<rparr>,
                   SelfUsage = None, InclusiveUsage = Some exRootUsage, Usage = None\<rparr>"

definition exChildEvent :: "(64, real) TokenUsageEvent" where
  "exChildEvent = \<lparr>SessionID = ''child1'', AgentContext = \<lparr>AgentName = ''worker''\<rparr>,
                    SelfUsage = Some exChildUsage, InclusiveUsage = None, Usage = None\<rparr>"

definition exAnonEvent :: "(64, real) TokenUsageEvent" where
  "exAnonEvent = \<lparr>SessionID = ''s2'', AgentContext = \<lparr>AgentName = []\<rparr>,
                   SelfUsage = None, InclusiveUsage = Some exChildUsage, Usage = None\<rparr>"

definition exLegacyEvent :: "(64, real) TokenUsageEvent" where
  "exLegacyEvent = \<lparr>SessionID = ''s3'', AgentContext = \<lparr>AgentName = ''root''\<rparr>,
                     SelfUsage = None, InclusiveUsage = None, Usage = Some exLegacyUsage\<rparr>"




section \<open>Properties\<close>

lemmas ex_defs = exRootUsage_def exChildUsage_def exLegacyUsage_def exRootEvent_def
  exChildEvent_def exAnonEvent_def exLegacyEvent_def New_def New_p1_def

lemmas run_defs = SetTokenUsage_def SetTokenUsage_p1_def legacyFallback_def storeSnapshots_def
  cloneUsage_def Let_def recordAll_def recordAll_p1_def

subsection \<open>Machine integers\<close>

text \<open>Subtracting non-negative counters never overflows.\<close>

lemma sint_sub_nonneg:
  fixes a b :: "'w::len word"
  assumes "0 \<le>s a" "0 \<le>s b"
  shows "sint (a - b) = sint a - sint b"
proof -
  have a: "0 \<le> sint a" and b: "0 \<le> sint b"
    using assms by (simp_all add: word_sle_eq)
  have "sint a < 2 ^ (LENGTH('w) - 1)" "sint b < 2 ^ (LENGTH('w) - 1)"
    by (rule sint_lt)+
  then have "- (2 ^ (LENGTH('w) - 1)) \<le> sint a - sint b" "sint a - sint b < 2 ^ (LENGTH('w) - 1)"
    using a b by linarith+
  then have "signed_take_bit (LENGTH('w) - 1) (sint a - sint b) = sint a - sint b"
    by (rule signed_take_bit_int_eq_self)
  then show ?thesis by (simp add: sint_word_ariths)
qed

lemma sint_clampZero_sub:
  fixes a b :: "'w::len word"
  assumes "0 \<le>s a" "0 \<le>s b"
  shows "sint (clampZero (a - b)) = max 0 (sint a - sint b)"
  using sint_sub_nonneg [OF assms] by (simp add: clampZero_def word_sless_alt max_def)






subsection \<open>Subtraction of snapshots\<close>

lemma subtractUsage_Some:
  "subtractUsage (Some b) (Some d) =
     Some \<lparr>InputTokens = clampZero (InputTokens b - InputTokens d),
           OutputTokens = clampZero (OutputTokens b - OutputTokens d),
           ContextLength = clampZero (InputTokens b - InputTokens d)
                             + clampZero (OutputTokens b - OutputTokens d),
           ContextLimit = ContextLimit b,
           Cost = (if Cost b - Cost d < 0 then 0 else Cost b - Cost d)\<rparr>"
  by (cases b) (simp add: subtractUsage_def Let_def clampZero_def)

text \<open>
  Claim C5. For every pair of snapshots \<open>base\<close> and \<open>delta\<close>, \<^verbatim>\<open>subtractUsage\<close> returns a
  snapshot whose input tokens, output tokens and cost are base minus delta, set to zero
  when the difference is below zero; whose context length is the sum of the input and
  output tokens after the subtraction; and whose context limit is the one of the base.
  The differences are those of the machine: for counters that are not negative, which is
  what a snapshot holds, they are the integers' difference clamped at zero.
\<close>

theorem subtractUsage_fields:
  fixes b d :: "('w::len, 'c::{zero,minus,ord}) Usage"
  shows "\<exists>r. subtractUsage (Some b) (Some d) = Some r
     \<and> InputTokens r = (if InputTokens b - InputTokens d <s 0 then 0
                         else InputTokens b - InputTokens d)
     \<and> OutputTokens r = (if OutputTokens b - OutputTokens d <s 0 then 0
                          else OutputTokens b - OutputTokens d)
     \<and> Cost r = (if Cost b - Cost d < 0 then 0 else Cost b - Cost d)
     \<and> ContextLength r = InputTokens r + OutputTokens r
     \<and> ContextLimit r = ContextLimit b
     \<and> (0 \<le>s InputTokens b \<and> 0 \<le>s InputTokens d \<longrightarrow>
          sint (InputTokens r) = max 0 (sint (InputTokens b) - sint (InputTokens d)))
     \<and> (0 \<le>s OutputTokens b \<and> 0 \<le>s OutputTokens d \<longrightarrow>
          sint (OutputTokens r) = max 0 (sint (OutputTokens b) - sint (OutputTokens d)))"
  unfolding subtractUsage_Some
  by (simp add: sint_clampZero_sub) (simp add: clampZero_def)

text \<open>
  An over-subtraction (scenario 3 of the specification): 50 input tokens minus 80 is
  clamped to 0, the limit 4096 of the base stays.
\<close>

theorem subtractUsage_fields_witness:
  "\<exists>r. subtractUsage
          (Some \<lparr>InputTokens = 50, OutputTokens = 7, ContextLength = 99,
                 ContextLimit = 4096, Cost = 1\<rparr>)
          (Some \<lparr>InputTokens = 80, OutputTokens = 3, ContextLength = 83,
                 ContextLimit = 8192, Cost = 1 / 4\<rparr>) = Some (r :: (64, real) Usage)
     \<and> sint (InputTokens r) = 0 \<and> sint (OutputTokens r) = 4 \<and> ContextLength r = 4
     \<and> ContextLimit r = 4096 \<and> Cost r = 3 / 4"
  using subtractUsage_fields
    [of "\<lparr>InputTokens = 50, OutputTokens = 7, ContextLength = 99,
          ContextLimit = 4096, Cost = 1\<rparr> :: (64, real) Usage"
        "\<lparr>InputTokens = 80, OutputTokens = 3, ContextLength = 83,
          ContextLimit = 8192, Cost = 1 / 4\<rparr>"]
  by (auto simp add: word_sle_eq word_sless_alt)

subsection \<open>Ingestion\<close>

text \<open>\<^verbatim>\<open>SetTokenUsage\<close> is the composition of its steps; what each step does to each field.\<close>

lemma SetTokenUsage_Some:
  "SetTokenUsage (Some e) m =
     updateRootInclusive (AgentName (AgentContext e)) (SessionID e) (InclusiveUsage e)
       (mapSessionName e (storeSelfUsage e (trackActiveSession e (captureRootIdentity e m))))"
  by (simp only: SetTokenUsage_def Let_def option.case captureRootIdentity_def
        trackActiveSession_def storeSelfUsage_def mapSessionName_def updateRootInclusive_def)

lemma SetTokenUsage_p1_Some:
  "SetTokenUsage_p1 (Some e) m =
     updateRootInclusive (AgentName (AgentContext e)) (SessionID e) (snd (legacyFallback e))
       (mapSessionName e (storeSession_p1 e (trackActiveSession e (captureRootIdentity e m))))"
  by (cases "legacyFallback e")
     (simp only: SetTokenUsage_p1_def Let_def option.case captureRootIdentity_def
        trackActiveSession_def mapSessionName_def updateRootInclusive_def storeSession_p1_def
        prod.case fst_conv snd_conv)

lemma cloneUsage_id [simp]: "cloneUsage u = u"
  by (simp add: cloneUsage_def split: option.split)

lemma SetTokenUsage_None [simp]: "SetTokenUsage None m = m"
  by (simp add: SetTokenUsage_def)

lemma SetTokenUsage_p1_None [simp]: "SetTokenUsage_p1 None m = m"
  by (simp add: SetTokenUsage_p1_def)

lemma captureRootIdentity_fields [simp]:
  "rootAgentName (captureRootIdentity e m) =
     (if AgentName (AgentContext e) \<noteq> [] \<and> rootAgentName m = []
      then AgentName (AgentContext e) else rootAgentName m)"
  "sessions (captureRootIdentity e m) = sessions m"
  "sessionAgents (captureRootIdentity e m) = sessionAgents m"
  "rootInclusive (captureRootIdentity e m) = rootInclusive m"
  "rootSessionID (captureRootIdentity e m) = rootSessionID m"
  "activeSessionID (captureRootIdentity e m) = activeSessionID m"
  "usageState.more (captureRootIdentity e m) = usageState.more m"
  by (simp_all add: captureRootIdentity_def)

lemma trackActiveSession_fields [simp]:
  "activeSessionID (trackActiveSession e m) =
     (if SessionID e \<noteq> [] then SessionID e else activeSessionID m)"
  "sessions (trackActiveSession e m) = sessions m"
  "sessionAgents (trackActiveSession e m) = sessionAgents m"
  "rootInclusive (trackActiveSession e m) = rootInclusive m"
  "rootSessionID (trackActiveSession e m) = rootSessionID m"
  "rootAgentName (trackActiveSession e m) = rootAgentName m"
  "usageState.more (trackActiveSession e m) = usageState.more m"
  by (simp_all add: trackActiveSession_def)

lemma storeSelfUsage_fields [simp]:
  "sessions (storeSelfUsage e m) =
     (if SelfUsage e \<noteq> None \<and> SessionID e \<noteq> []
      then AList.update (SessionID e) (SelfUsage e) (sessions m) else sessions m)"
  "activeSessionID (storeSelfUsage e m) = activeSessionID m"
  "sessionAgents (storeSelfUsage e m) = sessionAgents m"
  "rootInclusive (storeSelfUsage e m) = rootInclusive m"
  "rootSessionID (storeSelfUsage e m) = rootSessionID m"
  "rootAgentName (storeSelfUsage e m) = rootAgentName m"
  by (simp_all add: storeSelfUsage_def)

lemma storeSnapshots_fields [simp]:
  "sessions (storeSnapshots sid su iu m) =
     (if su \<noteq> None then AList.update sid su (sessions m)
      else if iu \<noteq> None then AList.update sid iu (sessions m) else sessions m)"
  "inclusive (storeSnapshots sid su iu m) =
     (if iu \<noteq> None then AList.update sid iu (inclusive m) else inclusive m)"
  "activeSessionID (storeSnapshots sid su iu m) = activeSessionID m"
  "sessionAgents (storeSnapshots sid su iu m) = sessionAgents m"
  "rootInclusive (storeSnapshots sid su iu m) = rootInclusive m"
  "rootSessionID (storeSnapshots sid su iu m) = rootSessionID m"
  "rootAgentName (storeSnapshots sid su iu m) = rootAgentName m"
  by (cases su; cases iu; simp add: storeSnapshots_def Let_def)+

lemma storeSession_p1_fields [simp]:
  "sessions (storeSession_p1 e m) =
     (if SessionID e = [] then sessions m
      else if fst (legacyFallback e) \<noteq> None
           then AList.update (SessionID e) (fst (legacyFallback e)) (sessions m)
      else if snd (legacyFallback e) \<noteq> None
           then AList.update (SessionID e) (snd (legacyFallback e)) (sessions m)
      else sessions m)"
  "inclusive (storeSession_p1 e m) =
     (if SessionID e \<noteq> [] \<and> snd (legacyFallback e) \<noteq> None
      then AList.update (SessionID e) (snd (legacyFallback e)) (inclusive m) else inclusive m)"
  "activeSessionID (storeSession_p1 e m) = activeSessionID m"
  "sessionAgents (storeSession_p1 e m) = sessionAgents m"
  "rootInclusive (storeSession_p1 e m) = rootInclusive m"
  "rootSessionID (storeSession_p1 e m) = rootSessionID m"
  "rootAgentName (storeSession_p1 e m) = rootAgentName m"
  by (simp_all add: storeSession_p1_def)

lemma mapSessionName_fields [simp]:
  "sessionAgents (mapSessionName e m) =
     (if AgentName (AgentContext e) \<noteq> [] \<and> SessionID e \<noteq> []
      then AList.update (SessionID e) (AgentName (AgentContext e)) (sessionAgents m)
      else sessionAgents m)"
  "sessions (mapSessionName e m) = sessions m"
  "activeSessionID (mapSessionName e m) = activeSessionID m"
  "rootInclusive (mapSessionName e m) = rootInclusive m"
  "rootSessionID (mapSessionName e m) = rootSessionID m"
  "rootAgentName (mapSessionName e m) = rootAgentName m"
  "usageState.more (mapSessionName e m) = usageState.more m"
  by (simp_all add: mapSessionName_def)

lemma updateRootInclusive_fields [simp]:
  "rootInclusive (updateRootInclusive a sid iu m) =
     (if a = rootAgentName m \<and> iu \<noteq> None then iu else rootInclusive m)"
  "rootSessionID (updateRootInclusive a sid iu m) =
     (if a = rootAgentName m \<and> iu \<noteq> None \<and> sid \<noteq> [] then sid else rootSessionID m)"
  "sessions (updateRootInclusive a sid iu m) = sessions m"
  "sessionAgents (updateRootInclusive a sid iu m) = sessionAgents m"
  "activeSessionID (updateRootInclusive a sid iu m) = activeSessionID m"
  "rootAgentName (updateRootInclusive a sid iu m) = rootAgentName m"
  "usageState.more (updateRootInclusive a sid iu m) = usageState.more m"
  by (auto simp add: updateRootInclusive_def Let_def)

lemma inclusive_steps [simp]:
  "inclusive (captureRootIdentity e m) = inclusive m"
  "inclusive (trackActiveSession e m) = inclusive m"
  "inclusive (mapSessionName e m) = inclusive m"
  "inclusive (updateRootInclusive a sid iu m) = inclusive m"
  by (simp_all add: captureRootIdentity_def trackActiveSession_def mapSessionName_def
        updateRootInclusive_def Let_def)


lemma legacyFallback_snd: "snd (legacyFallback e) = (if InclusiveUsage e = None then Usage e else InclusiveUsage e)"
  by (auto simp add: legacyFallback_def Let_def)

lemma lookupPtr_update [simp]:
  "lookupPtr (AList.update k v m) k' = (if k' = k then v else lookupPtr m k')"
  by (simp add: lookupPtr_def update_conv')

lemma lookupStr_update [simp]:
  "lookupStr (AList.update k v m) k' = (if k' = k then v else lookupStr m k')"
  by (simp add: lookupStr_def update_conv')

lemma recordAll_Nil [simp]: "recordAll [] m = m"
  by (simp add: recordAll_def)

lemma recordAll_Cons [simp]: "recordAll (ev # evs) m = recordAll evs (SetTokenUsage ev m)"
  by (simp add: recordAll_def)

lemma recordAll_p1_Nil [simp]: "recordAll_p1 [] m = m"
  by (simp add: recordAll_p1_def)

lemma recordAll_p1_Cons [simp]: "recordAll_p1 (ev # evs) m = recordAll_p1 evs (SetTokenUsage_p1 ev m)"
  by (simp add: recordAll_p1_def)

text \<open>Recording an event twice, in each revision.\<close>

lemma SetTokenUsage_idem: "SetTokenUsage ev (SetTokenUsage ev m) = SetTokenUsage ev m"
proof (cases ev)
  case None
  then show ?thesis by simp
next
  case (Some e)
  show ?thesis unfolding Some
    by (rule usageState.equality) (auto simp add: SetTokenUsage_Some)
qed

lemma SetTokenUsage_p1_idem: "SetTokenUsage_p1 ev (SetTokenUsage_p1 ev m) = SetTokenUsage_p1 ev m"
proof (cases ev)
  case None
  then show ?thesis by simp
next
  case (Some e)
  show ?thesis unfolding Some
    by (rule usageState_p1.equality) (auto simp add: SetTokenUsage_p1_Some)
qed

text \<open>
  Claim C9. For every ledger state and every event (the nil event included), recording the
  event twice in immediate succession leaves the ledger in the state that recording it
  once gives: every field is overwritten, nothing is accumulated. This holds for
  \<^verbatim>\<open>SetTokenUsage\<close> of sidebar.go and of part_001.
\<close>

theorem SetTokenUsage_idempotent:
  "SetTokenUsage ev (SetTokenUsage ev m) = SetTokenUsage ev m
   \<and> SetTokenUsage_p1 ev' (SetTokenUsage_p1 ev' m') = SetTokenUsage_p1 ev' m'"
  by (simp add: SetTokenUsage_idem SetTokenUsage_p1_idem)

text \<open>The root agent's report recorded twice on the new ledger, with the state it gives.\<close>

theorem SetTokenUsage_idempotent_witness:
  "SetTokenUsage (Some exRootEvent) (SetTokenUsage (Some exRootEvent) New) =
     \<lparr>sessions = [], sessionAgents = [(''root'', ''root'')],
      rootInclusive = Some exRootUsage, rootSessionID = ''root'', rootAgentName = ''root'',
      activeSessionID = ''root''\<rparr>
   \<and> SetTokenUsage_p1 (Some exRootEvent) (SetTokenUsage_p1 (Some exRootEvent) New_p1) =
     \<lparr>sessions = [(''root'', Some exRootUsage)], sessionAgents = [(''root'', ''root'')],
      rootInclusive = Some exRootUsage, rootSessionID = ''root'', rootAgentName = ''root'',
      activeSessionID = ''root'', inclusive = [(''root'', Some exRootUsage)]\<rparr>"
  using SetTokenUsage_idempotent [of "Some exRootEvent" New "Some exRootEvent" New_p1]
  by (simp add: exRootEvent_def New_def New_p1_def run_defs)

text \<open>
  Claim C10. While the root agent name is still the empty string, an event whose agent
  name is empty and whose inclusive usage is present overwrites \<^verbatim>\<open>rootInclusive\<close> with that
  snapshot and, if its session ID is not empty, sets \<^verbatim>\<open>rootSessionID\<close> to it (otherwise
  \<^verbatim>\<open>rootSessionID\<close> stays); the root agent name stays empty. The empty agent name equals
  the unset root name, so the event counts as a report of the root. This holds in both
  revisions.
\<close>

theorem anonymous_event_is_root_report:
  assumes "rootAgentName m = []" and "rootAgentName m' = []"
    and "AgentName (AgentContext e) = []" and "InclusiveUsage e = Some u"
  shows "rootInclusive (SetTokenUsage (Some e) m) = Some u
    \<and> rootSessionID (SetTokenUsage (Some e) m) =
        (if SessionID e \<noteq> [] then SessionID e else rootSessionID m)
    \<and> rootAgentName (SetTokenUsage (Some e) m) = []
    \<and> rootInclusive (SetTokenUsage_p1 (Some e) m') = Some u
    \<and> rootSessionID (SetTokenUsage_p1 (Some e) m') =
        (if SessionID e \<noteq> [] then SessionID e else rootSessionID m')
    \<and> rootAgentName (SetTokenUsage_p1 (Some e) m') = []"
  using assms by (simp add: SetTokenUsage_Some SetTokenUsage_p1_Some legacyFallback_snd)

theorem anonymous_event_is_root_report_witness:
  "rootAgentName (New :: (64, real) usageState) = []
   \<and> rootAgentName (New_p1 :: (64, real) usageState_p1) = []
   \<and> AgentName (AgentContext exAnonEvent) = []
   \<and> InclusiveUsage exAnonEvent = Some exChildUsage
   \<and> rootInclusive (SetTokenUsage (Some exAnonEvent) New) = Some exChildUsage
   \<and> rootSessionID (SetTokenUsage (Some exAnonEvent) New) = ''s2''
   \<and> rootInclusive (SetTokenUsage_p1 (Some exAnonEvent) New_p1) = Some exChildUsage
   \<and> rootSessionID (SetTokenUsage_p1 (Some exAnonEvent) New_p1) = ''s2''"
  using anonymous_event_is_root_report [of New New_p1 exAnonEvent exChildUsage]
  by (simp add: ex_defs)



text \<open>
  The storage step with pointers: the cells that existed stay as they are, the pointer
  stored for the session is a newly allocated cell holding the snapshot's value, and read
  through the heap the maps are those of the embedding by value.
\<close>

lemma cloneUsage_ptr_None [simp]: "cloneUsage_ptr h None = (h, None)"
  by (simp add: cloneUsage_ptr_def)

lemma cloneUsage_ptr_Some [simp]:
  "cloneUsage_ptr h (Some a) = (h @ [h ! a], Some (length h))"
  by (simp add: cloneUsage_ptr_def)

lemma cloneUsage_ptr_value:
  "validPtr h p \<Longrightarrow> cloneUsage_ptr h p = (h', p') \<Longrightarrow> deref h' p' = cloneUsage (deref h p)"
  by (cases p) (auto simp add: deref_def validPtr_def)


lemma derefMap_update:
  "derefMap h (AList.update k p m) = AList.update k (deref h p) (derefMap h m)"
  by (induction m) (auto simp add: derefMap_def)

lemma deref_append: "validPtr h p \<Longrightarrow> deref (h @ xs) p = deref h p"
  by (cases p) (simp_all add: deref_def validPtr_def nth_append)

lemma derefMap_append:
  "\<forall>(k, p)\<in>set m. validPtr h p \<Longrightarrow> derefMap (h @ xs) m = derefMap h m"
  by (induction m) (auto simp add: derefMap_def deref_append)

lemma storeSnapshots_ptr_refines:
  assumes "validPtr h selfUsage" and "validPtr h inclusiveUsage"
    and "\<forall>(k, p)\<in>set sess. validPtr h p" and "\<forall>(k, p)\<in>set incl. validPtr h p"
    and "storeSnapshots_ptr sid selfUsage inclusiveUsage (h, sess, incl) = (h', sess', incl')"
    and "sessions m = derefMap h sess" and "inclusive m = derefMap h incl"
  shows "sessions (storeSnapshots sid (deref h selfUsage) (deref h inclusiveUsage) m)
           = derefMap h' sess'"
    and "inclusive (storeSnapshots sid (deref h selfUsage) (deref h inclusiveUsage) m)
           = derefMap h' incl'"
  using assms
  by (cases selfUsage; cases inclusiveUsage;
      auto simp add: storeSnapshots_ptr_def Let_def derefMap_update derefMap_append
        deref_def validPtr_def nth_append)+



text \<open>The root identity over a sequence of events.\<close>

lemma rootAgentName_sticky_step:
  "rootAgentName m \<noteq> [] \<Longrightarrow> rootAgentName (SetTokenUsage ev m) = rootAgentName m"
  by (cases ev) (simp_all add: SetTokenUsage_Some)

lemma rootAgentName_sticky_step_p1:
  "rootAgentName m \<noteq> [] \<Longrightarrow> rootAgentName (SetTokenUsage_p1 ev m) = rootAgentName m"
  by (cases ev) (simp_all add: SetTokenUsage_p1_Some)

lemma rootAgentName_sticky:
  "rootAgentName m \<noteq> [] \<Longrightarrow> rootAgentName (recordAll evs m) = rootAgentName m"
  by (induction evs arbitrary: m) (simp_all add: rootAgentName_sticky_step)

lemma rootAgentName_sticky_p1:
  "rootAgentName m \<noteq> [] \<Longrightarrow> rootAgentName (recordAll_p1 evs m) = rootAgentName m"
  by (induction evs arbitrary: m) (simp_all add: rootAgentName_sticky_step_p1)

lemma rootSessionID_step:
  "rootAgentName m \<noteq> [] \<Longrightarrow>
   rootSessionID (SetTokenUsage (Some e) m) =
     (if AgentName (AgentContext e) = rootAgentName m \<and> InclusiveUsage e \<noteq> None
         \<and> SessionID e \<noteq> []
      then SessionID e else rootSessionID m)"
  by (auto simp add: SetTokenUsage_Some)

lemma rootSessionID_step_p1:
  "rootAgentName m \<noteq> [] \<Longrightarrow>
   rootSessionID (SetTokenUsage_p1 (Some e) m) =
     (if AgentName (AgentContext e) = rootAgentName m \<and> snd (legacyFallback e) \<noteq> None
         \<and> SessionID e \<noteq> []
      then SessionID e else rootSessionID m)"
  by (auto simp add: SetTokenUsage_p1_Some)

lemma rootSessionID_other_agents:
  assumes "rootAgentName m \<noteq> []"
    and "\<forall>e. Some e \<in> set evs \<longrightarrow> AgentName (AgentContext e) \<noteq> rootAgentName m"
  shows "rootSessionID (recordAll evs m) = rootSessionID m"
  using assms
proof (induction evs arbitrary: m)
  case Nil
  then show ?case by simp
next
  case (Cons ev evs)
  have name: "rootAgentName (SetTokenUsage ev m) = rootAgentName m"
    using Cons.prems(1) by (rule rootAgentName_sticky_step)
  have sid: "rootSessionID (SetTokenUsage ev m) = rootSessionID m"
  proof (cases ev)
    case None
    then show ?thesis by simp
  next
    case (Some e)
    with Cons.prems have "AgentName (AgentContext e) \<noteq> rootAgentName m" by simp
    with Cons.prems(1) show ?thesis unfolding Some by (simp add: rootSessionID_step)
  qed
  have "rootSessionID (recordAll evs (SetTokenUsage ev m)) = rootSessionID (SetTokenUsage ev m)"
    using Cons.prems by (intro Cons.IH) (simp_all add: name)
  with sid show ?case by simp
qed

lemma rootSessionID_other_agents_p1:
  assumes "rootAgentName m \<noteq> []"
    and "\<forall>e. Some e \<in> set evs \<longrightarrow> AgentName (AgentContext e) \<noteq> rootAgentName m"
  shows "rootSessionID (recordAll_p1 evs m) = rootSessionID m"
  using assms
proof (induction evs arbitrary: m)
  case Nil
  then show ?case by simp
next
  case (Cons ev evs)
  have name: "rootAgentName (SetTokenUsage_p1 ev m) = rootAgentName m"
    using Cons.prems(1) by (rule rootAgentName_sticky_step_p1)
  have sid: "rootSessionID (SetTokenUsage_p1 ev m) = rootSessionID m"
  proof (cases ev)
    case None
    then show ?thesis by simp
  next
    case (Some e)
    with Cons.prems have "AgentName (AgentContext e) \<noteq> rootAgentName m" by simp
    with Cons.prems(1) show ?thesis unfolding Some by (simp add: rootSessionID_step_p1)
  qed
  have "rootSessionID (recordAll_p1 evs (SetTokenUsage_p1 ev m)) = rootSessionID (SetTokenUsage_p1 ev m)"
    using Cons.prems by (intro Cons.IH) (simp_all add: name)
  with sid show ?case by simp
qed

text \<open>
  Claim C3, as stated, fails for \<^verbatim>\<open>rootSessionID\<close>: after the root agent has reported for
  session \<open>s1\<close>, a second report of the same agent for session \<open>s2\<close> moves the root session
  to \<open>s2\<close>.
\<close>

theorem root_session_id_counterexample:
  "rootAgentName (SetTokenUsage
      (Some \<lparr>SessionID = ''s1'', AgentContext = \<lparr>AgentName = ''root''\<rparr>, SelfUsage = None,
             InclusiveUsage = Some \<lparr>InputTokens = 100, OutputTokens = 50, ContextLength = 150,
                                     ContextLimit = 8192, Cost = 1 / 100\<rparr>,
             Usage = None\<rparr>) (New :: (64, real) usageState)) = ''root''
   \<and> rootSessionID (SetTokenUsage
      (Some \<lparr>SessionID = ''s1'', AgentContext = \<lparr>AgentName = ''root''\<rparr>, SelfUsage = None,
             InclusiveUsage = Some \<lparr>InputTokens = 100, OutputTokens = 50, ContextLength = 150,
                                     ContextLimit = 8192, Cost = 1 / 100\<rparr>,
             Usage = None\<rparr>) (New :: (64, real) usageState)) = ''s1''
   \<and> rootSessionID (SetTokenUsage
      (Some \<lparr>SessionID = ''s2'', AgentContext = \<lparr>AgentName = ''root''\<rparr>, SelfUsage = None,
             InclusiveUsage = Some \<lparr>InputTokens = 100, OutputTokens = 50, ContextLength = 150,
                                     ContextLimit = 8192, Cost = 1 / 100\<rparr>,
             Usage = None\<rparr>)
      (SetTokenUsage
        (Some \<lparr>SessionID = ''s1'', AgentContext = \<lparr>AgentName = ''root''\<rparr>, SelfUsage = None,
               InclusiveUsage = Some \<lparr>InputTokens = 100, OutputTokens = 50, ContextLength = 150,
                                       ContextLimit = 8192, Cost = 1 / 100\<rparr>,
               Usage = None\<rparr>) (New :: (64, real) usageState))) = ''s2''
   \<and> rootSessionID (SetTokenUsage_p1
      (Some \<lparr>SessionID = ''s2'', AgentContext = \<lparr>AgentName = ''root''\<rparr>, SelfUsage = None,
             InclusiveUsage = Some \<lparr>InputTokens = 100, OutputTokens = 50, ContextLength = 150,
                                     ContextLimit = 8192, Cost = 1 / 100\<rparr>,
             Usage = None\<rparr>)
      (SetTokenUsage_p1
        (Some \<lparr>SessionID = ''s1'', AgentContext = \<lparr>AgentName = ''root''\<rparr>, SelfUsage = None,
               InclusiveUsage = Some \<lparr>InputTokens = 100, OutputTokens = 50, ContextLength = 150,
                                       ContextLimit = 8192, Cost = 1 / 100\<rparr>,
               Usage = None\<rparr>) (New_p1 :: (64, real) usageState_p1))) = ''s2''"
  by (simp add: New_def New_p1_def run_defs)

text \<open>
  Claim C3, amended. Once the root agent name is set (an event with a non-empty agent name
  has been recorded), no sequence of later events changes \<^verbatim>\<open>rootAgentName\<close>, and events
  whose agent name is not the root agent name never change \<^verbatim>\<open>rootSessionID\<close>. An event
  that carries the root agent name, an inclusive snapshot and a non-empty session ID sets
  \<^verbatim>\<open>rootSessionID\<close> to its session ID; every other event leaves it as it is. This holds
  in both revisions (in part_001 the inclusive snapshot is the one after the legacy
  fallback).
\<close>

theorem root_identity_after_capture:
  assumes "rootAgentName m \<noteq> []" and "rootAgentName m' \<noteq> []"
  shows "rootAgentName (recordAll evs m) = rootAgentName m
    \<and> ((\<forall>e. Some e \<in> set evs \<longrightarrow> AgentName (AgentContext e) \<noteq> rootAgentName m) \<longrightarrow>
          rootSessionID (recordAll evs m) = rootSessionID m)
    \<and> rootSessionID (SetTokenUsage (Some e) m) =
         (if AgentName (AgentContext e) = rootAgentName m \<and> InclusiveUsage e \<noteq> None
             \<and> SessionID e \<noteq> []
          then SessionID e else rootSessionID m)
    \<and> rootAgentName (recordAll_p1 evs' m') = rootAgentName m'
    \<and> ((\<forall>e. Some e \<in> set evs' \<longrightarrow> AgentName (AgentContext e) \<noteq> rootAgentName m') \<longrightarrow>
          rootSessionID (recordAll_p1 evs' m') = rootSessionID m')
    \<and> rootSessionID (SetTokenUsage_p1 (Some e') m') =
         (if AgentName (AgentContext e') = rootAgentName m' \<and> snd (legacyFallback e') \<noteq> None
             \<and> SessionID e' \<noteq> []
          then SessionID e' else rootSessionID m')"
  using assms
  by (simp add: rootAgentName_sticky rootAgentName_sticky_p1 rootSessionID_other_agents
        rootSessionID_other_agents_p1 rootSessionID_step rootSessionID_step_p1)

text \<open>
  After the root's report, a worker's event, a nil event and an event without agent name
  leave the root agent name and the root session as they were.
\<close>

theorem root_identity_after_capture_witness:
  "rootAgentName (SetTokenUsage (Some exRootEvent) New) \<noteq> []
   \<and> rootAgentName (SetTokenUsage_p1 (Some exRootEvent) New_p1) \<noteq> []
   \<and> AgentName (AgentContext exChildEvent) \<noteq> rootAgentName (SetTokenUsage (Some exRootEvent) New)
   \<and> AgentName (AgentContext exAnonEvent) \<noteq> rootAgentName (SetTokenUsage (Some exRootEvent) New)
   \<and> rootAgentName (recordAll [Some exChildEvent, None, Some exAnonEvent]
         (SetTokenUsage (Some exRootEvent) New)) = ''root''
   \<and> rootSessionID (recordAll [Some exChildEvent, None, Some exAnonEvent]
         (SetTokenUsage (Some exRootEvent) New)) = ''root''
   \<and> rootAgentName (recordAll_p1 [Some exChildEvent, None, Some exAnonEvent]
         (SetTokenUsage_p1 (Some exRootEvent) New_p1)) = ''root''
   \<and> rootSessionID (recordAll_p1 [Some exChildEvent, None, Some exAnonEvent]
         (SetTokenUsage_p1 (Some exRootEvent) New_p1)) = ''root''"
  using root_identity_after_capture [of "SetTokenUsage (Some exRootEvent) New"
      "SetTokenUsage_p1 (Some exRootEvent) New_p1"
      "[Some exChildEvent, None, Some exAnonEvent]" exChildEvent
      "[Some exChildEvent, None, Some exAnonEvent]" exChildEvent]
  by (simp add: ex_defs run_defs)

text \<open>Every ledger that ingestion produces from the new one is well formed.\<close>

lemma set_update_cases:
  "(k', v') \<in> set (AList.update k v m) \<Longrightarrow> (k', v') = (k, v) \<or> (k', v') \<in> set m"
  by (induction m) (auto split: if_splits)

lemma wellFormedMap_update:
  "wellFormedMap m \<Longrightarrow> k \<noteq> [] \<Longrightarrow> v \<noteq> None \<Longrightarrow> wellFormedMap (AList.update k v m)"
  by (auto simp add: wellFormedMap_def distinct_update dest!: set_update_cases)

lemma wellFormed_New: "wellFormed New" "wellFormed_p1 New_p1"
  by (simp_all add: wellFormed_def wellFormed_p1_def wellFormedMap_def New_def New_p1_def)

lemma wellFormed_SetTokenUsage: "wellFormed m \<Longrightarrow> wellFormed (SetTokenUsage ev m)"
  by (cases ev)
     (auto simp add: wellFormed_def SetTokenUsage_Some wellFormedMap_update distinct_update)

lemma wellFormed_SetTokenUsage_p1: "wellFormed_p1 m \<Longrightarrow> wellFormed_p1 (SetTokenUsage_p1 ev m)"
  by (cases ev)
     (auto simp add: wellFormed_p1_def wellFormed_def SetTokenUsage_p1_Some wellFormedMap_update
        distinct_update)

lemma wellFormed_recordAll: "wellFormed m \<Longrightarrow> wellFormed (recordAll evs m)"
  by (induction evs arbitrary: m) (simp_all add: wellFormed_SetTokenUsage)

lemma wellFormed_recordAll_p1: "wellFormed_p1 m \<Longrightarrow> wellFormed_p1 (recordAll_p1 evs m)"
  by (induction evs arbitrary: m) (simp_all add: wellFormed_SetTokenUsage_p1)

lemma reachable_wellFormed:
  "wellFormed (recordAll evs New)" "wellFormed_p1 (recordAll_p1 evs New_p1)"
  by (simp_all add: wellFormed_recordAll wellFormed_recordAll_p1 wellFormed_New)

lemma lookupPtr_wellFormedMap: "wellFormedMap m \<Longrightarrow> lookupPtr m [] = None"
  by (auto simp add: wellFormedMap_def lookupPtr_def split: option.split dest!: map_of_SomeD)

lemma wellFormed_no_root_self_usage:
  "wellFormed m \<Longrightarrow> rootInclusive m = None \<Longrightarrow> lookupPtr (sessions m) (rootSessionID m) = None"
  by (simp add: wellFormed_def lookupPtr_wellFormedMap)

subsection \<open>Team totals\<close>

lemma zeroUsage_fields [simp]:
  "InputTokens zeroUsage = 0" "OutputTokens zeroUsage = 0" "ContextLength zeroUsage = 0"
  "ContextLimit zeroUsage = 0" "Cost zeroUsage = 0"
  by (simp_all add: zeroUsage_def)




lemma aggregateSelfUsage_nonempty:
  "m \<noteq> [] \<Longrightarrow> aggregateSelfUsage m = Some (aggregateLoop m zeroUsage)"
  by (simp add: aggregateSelfUsage_def)






subsection \<open>Root exclusive usage\<close>

lemma exclusiveLoop_None [simp]: "exclusiveLoop rid xs None = None"
  by (induction rid xs "None :: ('a, 'b) UsagePtr" rule: exclusiveLoop.induct)
     (simp_all add: subtractUsage_def)

lemma exclusiveLoop_Some_ex: "\<exists>r. exclusiveLoop rid xs (Some b) = Some r"
proof (induction xs arbitrary: b)
  case Nil
  show ?case by simp
next
  case (Cons x xs)
  obtain sid usage where x: "x = (sid, usage)" by (cases x)
  show ?case
  proof (cases "sid = rid \<or> usage = None")
    case True
    then show ?thesis using Cons.IH [of b] by (simp add: x)
  next
    case False
    then obtain d where d: "usage = Some d" by auto
    obtain b' where "subtractUsage (Some b) (Some d) = Some b'"
      by (simp add: subtractUsage_Some)
    with False d show ?thesis using Cons.IH [of b'] by (simp add: x)
  qed
qed

lemma computeRootExclusiveUsage_None_iff:
  "computeRootExclusiveUsage m = None \<longleftrightarrow> rootInclusive m = None"
proof (cases "rootInclusive m")
  case None
  then show ?thesis by (simp add: computeRootExclusiveUsage_def)
next
  case (Some r)
  obtain x where "exclusiveLoop (rootSessionID m) (sessions m) (Some r) = Some x"
    using exclusiveLoop_Some_ex by blast
  with Some show ?thesis by (simp add: computeRootExclusiveUsage_def)
qed

lemma exclusiveLoop_input:
  fixes b :: "('w::len, 'c::{zero,minus,ord}) Usage"
  assumes "\<forall>u\<in>set (storedSnapshots (filter (\<lambda>(sid, usage). sid \<noteq> rid) xs)). 0 \<le>s InputTokens u"
    and "(\<Sum>u\<leftarrow>storedSnapshots (filter (\<lambda>(sid, usage). sid \<noteq> rid) xs). sint (InputTokens u))
           \<le> sint (InputTokens b)"
  shows "\<exists>r. exclusiveLoop rid xs (Some b) = Some r
    \<and> InputTokens r + sum_list (map InputTokens (storedSnapshots (filter (\<lambda>(sid, usage). sid \<noteq> rid) xs)))
        = InputTokens b
    \<and> sint (InputTokens r)
        + (\<Sum>u\<leftarrow>storedSnapshots (filter (\<lambda>(sid, usage). sid \<noteq> rid) xs). sint (InputTokens u))
        = sint (InputTokens b)"
  using assms
proof (induction xs arbitrary: b)
  case Nil
  show ?case by simp
next
  case (Cons x xs)
  let ?cs = "storedSnapshots (filter (\<lambda>(sid, usage). sid \<noteq> rid) xs)"
  obtain sid usage where x: "x = (sid, usage)" by (cases x)
  show ?case
  proof (cases "sid = rid \<or> usage = None")
    case True
    then have same: "storedSnapshots (filter (\<lambda>(sid, usage). sid \<noteq> rid) (x # xs)) = ?cs"
      by (auto simp add: x)
    from Cons.prems have "\<forall>u\<in>set ?cs. 0 \<le>s InputTokens u"
      and "(\<Sum>u\<leftarrow>?cs. sint (InputTokens u)) \<le> sint (InputTokens b)"
      unfolding same by simp_all
    from Cons.IH [OF this] show ?thesis
      unfolding same using True by (simp add: x)
  next
    case False
    then obtain d where d: "usage = Some d" and sid: "sid \<noteq> rid" by auto
    have cons: "storedSnapshots (filter (\<lambda>(sid, usage). sid \<noteq> rid) (x # xs)) = d # ?cs"
      using sid by (simp add: x d)
    from Cons.prems have nonneg: "\<forall>u\<in>set ?cs. 0 \<le>s InputTokens u"
      and d0: "0 \<le>s InputTokens d"
      and le: "sint (InputTokens d) + (\<Sum>u\<leftarrow>?cs. sint (InputTokens u)) \<le> sint (InputTokens b)"
      unfolding cons by simp_all
    have rest0: "0 \<le> (\<Sum>u\<leftarrow>?cs. sint (InputTokens u))"
      using nonneg by (intro sum_list_nonneg) (auto simp add: word_sle_eq)
    have d0': "0 \<le> sint (InputTokens d)" using d0 by (simp add: word_sle_eq)
    have b0: "0 \<le>s InputTokens b" using rest0 d0' le by (simp add: word_sle_eq)
    have diff: "sint (InputTokens b - InputTokens d) = sint (InputTokens b) - sint (InputTokens d)"
      using b0 d0 by (rule sint_sub_nonneg)
    have noclamp: "clampZero (InputTokens b - InputTokens d) = InputTokens b - InputTokens d"
      using diff rest0 le by (simp add: clampZero_def word_sless_alt)
    obtain b' where b': "subtractUsage (Some b) (Some d) = Some b'"
      and in': "InputTokens b' = InputTokens b - InputTokens d"
      using noclamp by (simp add: subtractUsage_Some)
    have "(\<Sum>u\<leftarrow>?cs. sint (InputTokens u)) \<le> sint (InputTokens b')"
      using le by (simp add: in' diff)
    from Cons.IH [OF nonneg this] obtain r where
      r: "exclusiveLoop rid xs (Some b') = Some r"
      and w: "InputTokens r + sum_list (map InputTokens ?cs) = InputTokens b'"
      and i: "sint (InputTokens r) + (\<Sum>u\<leftarrow>?cs. sint (InputTokens u)) = sint (InputTokens b')"
      by blast
    have "exclusiveLoop rid (x # xs) (Some b) = Some r"
      using sid r b' by (simp add: x d)
    moreover have "InputTokens r + sum_list (map InputTokens (d # ?cs)) = InputTokens b"
      using w by (simp add: in' algebra_simps)
    moreover have "sint (InputTokens r) + (\<Sum>u\<leftarrow>d # ?cs. sint (InputTokens u)) = sint (InputTokens b)"
      using i by (simp add: in' diff)
    ultimately show ?thesis unfolding cons by blast
  qed
qed

text \<open>
  Claim C2. \<^verbatim>\<open>computeRootExclusiveUsage\<close> (sidebar.go) is nil exactly when \<^verbatim>\<open>rootInclusive\<close>
  is nil. For every ledger state in which \<^verbatim>\<open>rootInclusive\<close> is present, the input tokens
  of the stored sessions other than the root session are not negative and their sum is at
  most the input tokens of \<^verbatim>\<open>rootInclusive\<close> (so that no subtraction is clamped), the input
  tokens of the result plus that sum equal the input tokens of \<^verbatim>\<open>rootInclusive\<close>, as
  machine integers and as integers.
\<close>

theorem root_exclusive_input_tokens:
  fixes m :: "('w::len, 'c::{zero,minus,ord}) usageState"
  shows "(computeRootExclusiveUsage m = None \<longleftrightarrow> rootInclusive m = None)
    \<and> (\<forall>r. rootInclusive m = Some r
          \<and> (\<forall>u\<in>set (childSnapshots m). 0 \<le>s InputTokens u)
          \<and> (\<Sum>u\<leftarrow>childSnapshots m. sint (InputTokens u)) \<le> sint (InputTokens r) \<longrightarrow>
          (\<exists>x. computeRootExclusiveUsage m = Some x
             \<and> InputTokens x + sum_list (map InputTokens (childSnapshots m)) = InputTokens r
             \<and> sint (InputTokens x) + (\<Sum>u\<leftarrow>childSnapshots m. sint (InputTokens u))
                 = sint (InputTokens r)))"
proof (intro conjI allI impI)
  show "computeRootExclusiveUsage m = None \<longleftrightarrow> rootInclusive m = None"
    by (rule computeRootExclusiveUsage_None_iff)
next
  fix r
  assume a: "rootInclusive m = Some r
          \<and> (\<forall>u\<in>set (childSnapshots m). 0 \<le>s InputTokens u)
          \<and> (\<Sum>u\<leftarrow>childSnapshots m. sint (InputTokens u)) \<le> sint (InputTokens r)"
  then have root: "computeRootExclusiveUsage m = exclusiveLoop (rootSessionID m) (sessions m) (Some r)"
    by (simp add: computeRootExclusiveUsage_def)
  from a show "\<exists>x. computeRootExclusiveUsage m = Some x
             \<and> InputTokens x + sum_list (map InputTokens (childSnapshots m)) = InputTokens r
             \<and> sint (InputTokens x) + (\<Sum>u\<leftarrow>childSnapshots m. sint (InputTokens u))
                 = sint (InputTokens r)"
    unfolding root childSnapshots_def by (intro exclusiveLoop_input) simp_all
qed

text \<open>Scenario 2 of the specification: 1000 inclusive, 200 in the child, 800 exclusive.\<close>

theorem root_exclusive_input_tokens_witness:
  "rootInclusive (recordAll [Some exRootEvent, Some exChildEvent] New) = Some exRootUsage
   \<and> childSnapshots (recordAll [Some exRootEvent, Some exChildEvent] New) = [exChildUsage]
   \<and> 0 \<le>s InputTokens exChildUsage
   \<and> sint (InputTokens exChildUsage) \<le> sint (InputTokens exRootUsage)
   \<and> computeRootExclusiveUsage (recordAll [Some exRootEvent, Some exChildEvent] New)
       = Some \<lparr>InputTokens = 800, OutputTokens = 400, ContextLength = 1200,
               ContextLimit = 8192, Cost = 4 / 5\<rparr>
   \<and> (800 :: 64 word) + 200 = 1000"
  using root_exclusive_input_tokens [of "recordAll [Some exRootEvent, Some exChildEvent] New"]
  by (simp add: ex_defs run_defs computeRootExclusiveUsage_def subtractUsage_def
        childSnapshots_def word_sle_eq word_sless_alt)











subsection \<open>Session breakdown\<close>

lemma formatSessionBlock_None [simp]: "formatSessionBlock n None a = None"
  by (simp add: formatSessionBlock_def)

lemma formatSessionBlock_None_iff [simp]: "formatSessionBlock n u a = None \<longleftrightarrow> u = None"
  by (simp add: formatSessionBlock_def split: option.split)






lemma unionLoop_snd:
  "idSet = set ids \<Longrightarrow>
   set (snd (unionLoop ks (idSet, ids))) = set ids \<union> set ks
   \<and> (distinct ids \<longrightarrow> distinct (snd (unionLoop ks (idSet, ids))))"
proof (induction ks arbitrary: idSet ids)
  case Nil
  show ?case by simp
next
  case (Cons sid rest)
  show ?case
  proof (cases "sid \<in> idSet")
    case True
    with Cons.prems Cons.IH [of idSet ids] show ?thesis by auto
  next
    case False
    have "insert sid idSet = set (ids @ [sid])" using Cons.prems by simp
    from Cons.IH [OF this] False Cons.prems show ?thesis by auto
  qed
qed

lemma set_collectIDs: "set (collectIDs m) = fst ` set (sessions m) \<union> fst ` set (inclusive m)"
  using unionLoop_snd [of "set (map fst (sessions m))" "map fst (sessions m)" "map fst (inclusive m)"]
  by (simp add: collectIDs_def Let_def)



lemma sameMap_keys: "sameMap xs ys \<Longrightarrow> fst ` set xs = fst ` set ys"
  by (simp add: sameMap_def)
















lemma lookupPtr_keys: "lookupPtr xs k = Some y \<Longrightarrow> k \<in> fst ` set xs"
  by (auto simp add: lookupPtr_def split: option.splits dest: map_of_SomeD intro: rev_image_eqI)

lemma set_rowIDs:
  "set (rowIDs m) = {sid. sid \<noteq> rootSessionID m \<and> lookupPtr (sessions m) sid \<noteq> None}"
  by (auto simp add: rowIDs_def dest: lookupPtr_keys)

lemma set_rowIDs_p1:
  "set (rowIDs_p1 m) = {sid. sid \<noteq> rootSessionID m
      \<and> (lookupPtr (sessions m) sid \<noteq> None \<or> lookupPtr (inclusive m) sid \<noteq> None)}"
  by (auto simp add: rowIDs_p1_def set_collectIDs dest: lookupPtr_keys)

lemma rootSessionBlock_shape:
  fixes m :: "('w::len, 'c::{zero,minus,ord}) usageState" and p :: "('v::len, 'd) usageState_p1"
  shows "rootSessionBlock m =
           formatSessionBlock (if rootAgentName m = [] then ''Root'' else rootAgentName m)
             (computeRootExclusiveUsage m) (activeSessionID m = rootSessionID m)
    \<and> (rootSessionBlock m = None \<longleftrightarrow> rootInclusive m = None)
    \<and> rootSessionBlock_p1 p =
           formatSessionBlock (if rootAgentName p = [] then ''Root'' else rootAgentName p)
             (if lookupPtr (sessions p) (rootSessionID p) = None then rootInclusive p
              else lookupPtr (sessions p) (rootSessionID p))
             (activeSessionID p = rootSessionID p)
    \<and> (rootSessionBlock_p1 p = None \<longleftrightarrow>
          lookupPtr (sessions p) (rootSessionID p) = None \<and> rootInclusive p = None)"
proof -
  have a: "rootSessionBlock m =
           formatSessionBlock (if rootAgentName m = [] then ''Root'' else rootAgentName m)
             (computeRootExclusiveUsage m) (activeSessionID m = rootSessionID m)"
    by (simp add: rootSessionBlock_def Let_def)
  have b: "rootSessionBlock_p1 p =
           formatSessionBlock (if rootAgentName p = [] then ''Root'' else rootAgentName p)
             (if lookupPtr (sessions p) (rootSessionID p) = None then rootInclusive p
              else lookupPtr (sessions p) (rootSessionID p))
             (activeSessionID p = rootSessionID p)"
    by (simp add: rootSessionBlock_p1_def Let_def)
  show ?thesis
    unfolding a b by (auto simp add: computeRootExclusiveUsage_None_iff)
qed



text \<open>
  Claim C8, as stated, fails on the label: after an event without agent name has reported
  an inclusive snapshot for session \<open>s1\<close>, the root agent name is empty and the root
  session is \<open>s1\<close>, yet the root row is labelled \<open>Root\<close>, not \<open>s1\<close>. It also fails on the
  fallback in sidebar.go, though only in a ledger that ingestion never produces: without
  \<^verbatim>\<open>rootInclusive\<close> there is no root row, even if the root session has a stored self-usage
  snapshot.
\<close>

theorem root_row_counterexample:
  "rootAgentName (SetTokenUsage
      (Some \<lparr>SessionID = ''s1'', AgentContext = \<lparr>AgentName = []\<rparr>, SelfUsage = None,
             InclusiveUsage = Some \<lparr>InputTokens = 10, OutputTokens = 5, ContextLength = 15,
                                     ContextLimit = 100, Cost = 1 / 20\<rparr>,
             Usage = None\<rparr>) (New :: (64, real) usageState)) = []
   \<and> rootSessionID (SetTokenUsage
      (Some \<lparr>SessionID = ''s1'', AgentContext = \<lparr>AgentName = []\<rparr>, SelfUsage = None,
             InclusiveUsage = Some \<lparr>InputTokens = 10, OutputTokens = 5, ContextLength = 15,
                                     ContextLimit = 100, Cost = 1 / 20\<rparr>,
             Usage = None\<rparr>) (New :: (64, real) usageState)) = ''s1''
   \<and> map_option blockName (rootSessionBlock (SetTokenUsage
      (Some \<lparr>SessionID = ''s1'', AgentContext = \<lparr>AgentName = []\<rparr>, SelfUsage = None,
             InclusiveUsage = Some \<lparr>InputTokens = 10, OutputTokens = 5, ContextLength = 15,
                                     ContextLimit = 100, Cost = 1 / 20\<rparr>,
             Usage = None\<rparr>) (New :: (64, real) usageState))) = Some ''Root''
   \<and> ''Root'' \<noteq> ''s1''
   \<and> rootSessionBlock
        (\<lparr>sessions = [(''s1'', Some \<lparr>InputTokens = 10, OutputTokens = 5, ContextLength = 15,
                                       ContextLimit = 100, Cost = 1 / 20\<rparr>)],
          sessionAgents = [], rootInclusive = None, rootSessionID = ''s1'',
          rootAgentName = [], activeSessionID = ''s1''\<rparr> :: (64, real) usageState) = None"
  by (simp add: SetTokenUsage_def Let_def New_def rootSessionBlock_def
        computeRootExclusiveUsage_def formatSessionBlock_def)

text \<open>
  Claim C8, amended. For every ledger state, the label of the root row is the root agent
  name when it is not empty and the word \<open>Root\<close> otherwise, in both revisions. In
  sidebar.go the row renders \<^verbatim>\<open>computeRootExclusiveUsage\<close> and is omitted exactly when
  \<^verbatim>\<open>rootInclusive\<close> is absent; in a ledger that ingestion has produced the root session
  then has no stored self usage either, so there is nothing to fall back to. In part_001
  the row renders the stored self-usage snapshot of the root session when there is one,
  else \<^verbatim>\<open>rootInclusive\<close>, and is omitted exactly when both are absent. The row is marked
  active when the active session is the root session.
\<close>

theorem root_row:
  fixes m :: "('w::len, 'c::{zero,minus,ord}) usageState" and p :: "('v::len, 'd) usageState_p1"
  shows "rootSessionBlock m =
           formatSessionBlock (if rootAgentName m = [] then ''Root'' else rootAgentName m)
             (computeRootExclusiveUsage m) (activeSessionID m = rootSessionID m)
    \<and> (rootSessionBlock m = None \<longleftrightarrow> rootInclusive m = None)
    \<and> (wellFormed m \<and> rootInclusive m = None \<longrightarrow>
          lookupPtr (sessions m) (rootSessionID m) = None)
    \<and> rootSessionBlock_p1 p =
           formatSessionBlock (if rootAgentName p = [] then ''Root'' else rootAgentName p)
             (if lookupPtr (sessions p) (rootSessionID p) = None then rootInclusive p
              else lookupPtr (sessions p) (rootSessionID p))
             (activeSessionID p = rootSessionID p)
    \<and> (rootSessionBlock_p1 p = None \<longleftrightarrow>
          lookupPtr (sessions p) (rootSessionID p) = None \<and> rootInclusive p = None)"
  using rootSessionBlock_shape [of m p] wellFormed_no_root_self_usage [of m] by blast

text \<open>
  Scenario 2 in sidebar.go: the root row shows the exclusive usage, 800 + 400 tokens,
  under the root agent's name; in part_001 it shows the snapshot stored for the root
  session. A ledger in which only a worker has reported has no root row.
\<close>

theorem root_row_witness:
  "rootSessionBlock (recordAll [Some exRootEvent, Some exChildEvent] New) =
     Some \<lparr>blockName = ''root'', blockTokens = 1200, blockCost = 4 / 5, blockActive = False\<rparr>
   \<and> rootSessionBlock_p1 (recordAll_p1 [Some exRootEvent, Some exChildEvent] New_p1) =
     Some \<lparr>blockName = ''root'', blockTokens = 1500, blockCost = 1, blockActive = False\<rparr>
   \<and> wellFormed (recordAll [Some exChildEvent] New)
   \<and> rootInclusive (recordAll [Some exChildEvent] New) = None
   \<and> rootSessionBlock (recordAll [Some exChildEvent] New) = None
   \<and> lookupPtr (sessions (recordAll [Some exChildEvent] New))
         (rootSessionID (recordAll [Some exChildEvent] New)) = None"
proof -
  let ?m = "recordAll [Some exChildEvent] New :: (64, real) usageState"
  have wf: "wellFormed ?m" by (rule reachable_wellFormed)
  have none: "rootInclusive ?m = None" by (simp add: ex_defs run_defs)
  have omitted: "rootSessionBlock ?m = None"
    and no_self: "lookupPtr (sessions ?m) (rootSessionID ?m) = None"
    using root_row [of ?m New_p1] wf none by blast+
  have shown: "rootSessionBlock (recordAll [Some exRootEvent, Some exChildEvent] New) =
     Some \<lparr>blockName = ''root'', blockTokens = 1200, blockCost = 4 / 5, blockActive = False\<rparr>"
    by (simp add: ex_defs run_defs rootSessionBlock_def computeRootExclusiveUsage_def
          subtractUsage_def formatSessionBlock_def word_sless_alt)
  have shown_p1: "rootSessionBlock_p1 (recordAll_p1 [Some exRootEvent, Some exChildEvent] New_p1) =
     Some \<lparr>blockName = ''root'', blockTokens = 1500, blockCost = 1, blockActive = False\<rparr>"
    by (simp add: ex_defs run_defs rootSessionBlock_p1_def formatSessionBlock_def lookupPtr_def)
  show ?thesis
    using wf none omitted no_self shown shown_p1 by blast
qed





end
